theory Spec2Isabelle
  imports Main "HOL-Library.Word" "HOL-Library.AList"
begin

unbundle bit_operations_syntax

section \<open>Route matcher (app package, \<open>matchRoute\<close>)\<close>

text \<open>
  Go strings are byte sequences; they are modelled as \<open>string\<close> (a list of
  \<open>char\<close>, one per byte). \<open>router.Param\<close> is a struct with the two string fields
  \<open>Key\<close> and \<open>Value\<close>. A Go slice that may be \<open>nil\<close> is an \<open>option\<close>: \<open>None\<close> is
  \<open>nil\<close>, \<open>Some []\<close> is the empty non-nil slice (\<open>paramBuf[:0]\<close>); the callers of
  \<open>matchRoute\<close> test its result against \<open>nil\<close>, so the difference matters.
\<close>

datatype Param = Param (Key: string) (Value: string)

text \<open>
  \<open>s[i:j]\<close> for \<open>i \<le> j \<le> len(s)\<close>. Go panics outside this range;
  \<open>matchRoute\<close> only slices between indices it has scanned, which are in range.
\<close>

definition slice :: "string \<Rightarrow> nat \<Rightarrow> nat \<Rightarrow> string" where
  "slice s i j = take (j - i) (drop i s)"

text \<open>
  The inner loops
  \<^verbatim>\<open>for patternIdx < patternLen && pattern[patternIdx] != '/' { patternIdx++ }\<close>
  (and the same on the path): the index of the end of the segment that starts at \<open>i\<close>.
\<close>

function segEnd :: "string \<Rightarrow> nat \<Rightarrow> nat" where
  "segEnd s i = (if i < length s \<and> s ! i \<noteq> CHR ''/'' then segEnd s (Suc i) else i)"
  by pat_completeness auto
termination
  by (relation "measure (\<lambda>(s, i). length s - i)") auto

declare segEnd.simps [simp del]

text \<open>
  \<^verbatim>\<open>if idx < len && s[idx] == '/' { idx++ }\<close>: used for the leading slash and after
  every segment.
\<close>

definition skipSlash :: "string \<Rightarrow> nat \<Rightarrow> nat" where
  "skipSlash s i = (if i < length s \<and> s ! i = CHR ''/'' then Suc i else i)"

lemma segEnd_ge: "i \<le> segEnd s i"
proof (induction s i rule: segEnd.induct)
  case (1 s i)
  show ?case
  proof (cases "i < length s \<and> s ! i \<noteq> CHR ''/''")
    case True
    with 1 have "Suc i \<le> segEnd s (Suc i)" by simp
    then have "i \<le> segEnd s (Suc i)" by simp
    with True show ?thesis by (subst segEnd.simps) simp
  next
    case False
    then show ?thesis by (subst segEnd.simps) auto
  qed
qed

lemma segEnd_le_length: "i \<le> length s \<Longrightarrow> segEnd s i \<le> length s"
proof (induction s i rule: segEnd.induct)
  case (1 s i)
  show ?case
  proof (cases "i < length s \<and> s ! i \<noteq> CHR ''/''")
    case True
    with 1 have "segEnd s (Suc i) \<le> length s" by simp
    with True show ?thesis by (subst segEnd.simps) simp
  next
    case False
    with 1 show ?thesis by (subst segEnd.simps) auto
  qed
qed

lemma segEnd_stuck: "segEnd s i = i \<Longrightarrow> i < length s \<Longrightarrow> s ! i = CHR ''/''"
proof (rule ccontr)
  assume eq: "segEnd s i = i" and lt: "i < length s" and ne: "s ! i \<noteq> CHR ''/''"
  from lt ne have "segEnd s i = segEnd s (Suc i)" by (subst segEnd.simps) simp
  moreover have "Suc i \<le> segEnd s (Suc i)" by (rule segEnd_ge)
  ultimately show False using eq by simp
qed

lemma advance_progress: "i < length s \<Longrightarrow> i < skipSlash s (segEnd s i)"
proof -
  assume lt: "i < length s"
  show ?thesis
  proof (cases "segEnd s i = i")
    case True
    with lt have "s ! i = CHR ''/''" by (simp add: segEnd_stuck)
    with True lt show ?thesis by (simp add: skipSlash_def)
  next
    case False
    with segEnd_ge [of i s] have "i < segEnd s i" by simp
    then show ?thesis by (simp add: skipSlash_def)
  qed
qed

text \<open>
  The main loop of \<open>matchRoute\<close>
  (\<^verbatim>\<open>for patternIdx < patternLen && pathIdx < pathLen { ... }\<close>) together with the
  final check \<^verbatim>\<open>if patternIdx != patternLen || pathIdx != pathLen { return nil }\<close>.
  The arguments are the loop's variables: the two indices and the parameters collected
  so far. \<open>patternSeg[1:]\<close> is \<open>drop 1 patternSeg\<close> (guarded by \<open>len(patternSeg) > 0\<close>),
  \<open>path[pathSegStart:]\<close> is \<open>drop pathSegStart path\<close>.
\<close>

function matchLoop :: "string \<Rightarrow> string \<Rightarrow> nat \<Rightarrow> nat \<Rightarrow> Param list \<Rightarrow> Param list option" where
  "matchLoop pattern path patternIdx pathIdx params =
     (if patternIdx < length pattern \<and> pathIdx < length path then
        (if 0 < length (slice pattern patternIdx (segEnd pattern patternIdx))
            \<and> slice pattern patternIdx (segEnd pattern patternIdx) ! 0 = CHR ''*'' then
           Some (params @
             [Param (drop 1 (slice pattern patternIdx (segEnd pattern patternIdx)))
                    (drop pathIdx path)])
         else if 0 < length (slice pattern patternIdx (segEnd pattern patternIdx))
            \<and> slice pattern patternIdx (segEnd pattern patternIdx) ! 0 = CHR '':'' then
           matchLoop pattern path
             (skipSlash pattern (segEnd pattern patternIdx))
             (skipSlash path (segEnd path pathIdx))
             (params @
               [Param (drop 1 (slice pattern patternIdx (segEnd pattern patternIdx)))
                      (slice path pathIdx (segEnd path pathIdx))])
         else if slice pattern patternIdx (segEnd pattern patternIdx)
                   \<noteq> slice path pathIdx (segEnd path pathIdx) then None
         else
           matchLoop pattern path
             (skipSlash pattern (segEnd pattern patternIdx))
             (skipSlash path (segEnd path pathIdx))
             params)
      else if patternIdx \<noteq> length pattern \<or> pathIdx \<noteq> length path then None
      else Some params)"
  by pat_completeness auto
termination
  by (relation "measure (\<lambda>(pattern, path, patternIdx, pathIdx, params). length pattern - patternIdx)")
     (auto simp: advance_progress diff_less_mono2)

declare matchLoop.simps [simp del]

text \<open>\<open>strings.ContainsAny(pattern, ":*")\<close>; both characters are ASCII, so the test is bytewise.\<close>

definition ContainsAny :: "string \<Rightarrow> string \<Rightarrow> bool" where
  "ContainsAny s chars = (\<exists>c \<in> set s. c \<in> set chars)"

definition matchRoute :: "string \<Rightarrow> string \<Rightarrow> Param list option" where
  "matchRoute pattern path =
     (if pattern = path then None
      else if \<not> ContainsAny pattern '':*'' then None
      else matchLoop pattern path (skipSlash pattern 0) (skipSlash path 0) [])"


section \<open>Request context (ctx package, \<open>DefaultContext\<close>)\<close>

subsection \<open>The two transports\<close>

text \<open>
  The transports are external to the repository; the context only calls a few of their
  operations. They are modelled by the state those operations act on.

  \<open>http.ResponseWriter\<close> (net/http): the header map returned by \<open>Header()\<close>, and what
  has been put on the wire. \<open>WriteHeader\<close> sends the status line with a snapshot of the
  header map, once; \<open>Write\<close> appends to the body. \<open>*http.Request\<close>: the method, the URL's
  path and raw query.

  \<open>*fasthttp.RequestCtx\<close>: the request's method, path and query arguments, and the
  buffered response (status code, headers, content type, body), which fasthttp sends
  after the handler has returned. Its setters overwrite what the buffer holds.
\<close>

type_synonym HeaderMap = "string \<rightharpoonup> string list"

record ResponseWriter =
  header :: HeaderMap
  wireStatus :: "int option"
  wireHeader :: HeaderMap
  wireBody :: string

record Request =
  reqMethod :: string
  urlPath :: string
  urlRawQuery :: string

record RequestCtx =
  fMethod :: string
  fPath :: string
  fQueryArgs :: "string \<rightharpoonup> string"
  respStatusCode :: int
  respHeader :: HeaderMap
  respContentType :: string
  respBody :: string

definition WriteHeader :: "int \<Rightarrow> ResponseWriter \<Rightarrow> ResponseWriter" where
  "WriteHeader code wr =
     (case wireStatus wr of
        Some _ \<Rightarrow> wr
      | None \<Rightarrow> wr\<lparr>wireStatus := Some code, wireHeader := header wr\<rparr>)"

definition Write :: "string \<Rightarrow> ResponseWriter \<Rightarrow> ResponseWriter" where
  "Write b wr = (let wr' = WriteHeader 200 wr in wr'\<lparr>wireBody := wireBody wr' @ b\<rparr>)"

text \<open>\<open>http.Header.Get\<close> for a key in canonical form: the first value, or the empty string.\<close>

definition HeaderGet :: "HeaderMap \<Rightarrow> string \<Rightarrow> string" where
  "HeaderGet h k = (case h k of None \<Rightarrow> [] | Some [] \<Rightarrow> [] | Some (v # _) \<Rightarrow> v)"

text \<open>\<open>http.Header.Add\<close> and fasthttp's \<open>Header.Add\<close>: append a value under the key.\<close>

definition HeaderAdd :: "HeaderMap \<Rightarrow> string \<Rightarrow> string \<Rightarrow> HeaderMap" where
  "HeaderAdd h k v = h(k \<mapsto> (case h k of None \<Rightarrow> [] | Some vs \<Rightarrow> vs) @ [v])"

text \<open>\<open>httprouter.Params.ByName\<close>: the value of the first parameter with that key, or \<open>""\<close>.\<close>

fun ByName :: "Param list \<Rightarrow> string \<Rightarrow> string" where
  "ByName [] name = []"
| "ByName (p # ps) name = (if Key p = name then Value p else ByName ps name)"

subsection \<open>The context\<close>

text \<open>
  The fields of \<open>DefaultContext\<close>, each under its Go name with the prefix \<open>c_\<close> (HOL
  has one name space for the fields of all records). A pointer or interface that may be
  \<open>nil\<close> is an \<open>option\<close>. \<open>params\<close> is the array \<open>[32]router.Param\<close>, a list that has 32
  elements in every context the program builds; \<open>paramCount\<close> is a \<open>uint8\<close>, \<open>status\<close> a
  \<open>uint16\<close>, \<open>flags\<close> a \<open>uint8\<close> of packed bits. \<open>appLogger\<close> is an opaque reference.
  Of the two scratch buffers only the contents are modelled, not the capacity.
\<close>

record DefaultContext =
  c_w :: "ResponseWriter option"
  c_r :: "Request option"
  c_fctx :: "RequestCtx option"
  c_params :: "Param list"
  c_paramSlice :: "Param list option"
  c_paramCount :: "8 word"
  c_status :: "16 word"
  c_wroteBytes :: int
  c_route :: string
  c_flags :: "8 word"
  c_queryCache :: "HeaderMap option"
  c_appLogger :: "nat option"
  c_responseBuffer :: "string option"
  c_jsonBuffer :: "string option"

text \<open>What a failing Go operation does: a run-time panic.\<close>

datatype panic = NilPointerDereference | IndexOutOfRange

type_synonym error = string

definition flagWroteHeader :: "8 word" where "flagWroteHeader = push_bit 0 1"
definition flagJSONEscape :: "8 word" where "flagJSONEscape = push_bit 1 1"
definition flagHasQueryCache :: "8 word" where "flagHasQueryCache = push_bit 2 1"
definition flagIsFastHTTP :: "8 word" where "flagIsFastHTTP = push_bit 3 1"

definition wroteHeader :: "DefaultContext \<Rightarrow> bool" where
  "wroteHeader c = (c_flags c AND flagWroteHeader \<noteq> 0)"

definition setWroteHeader :: "bool \<Rightarrow> DefaultContext \<Rightarrow> DefaultContext" where
  "setWroteHeader v c =
     (if v then c\<lparr>c_flags := c_flags c OR flagWroteHeader\<rparr>
      else c\<lparr>c_flags := c_flags c AND NOT flagWroteHeader\<rparr>)"

definition jsonEscape :: "DefaultContext \<Rightarrow> bool" where
  "jsonEscape c = (c_flags c AND flagJSONEscape \<noteq> 0)"

definition setJSONEscape :: "bool \<Rightarrow> DefaultContext \<Rightarrow> DefaultContext" where
  "setJSONEscape v c =
     (if v then c\<lparr>c_flags := c_flags c OR flagJSONEscape\<rparr>
      else c\<lparr>c_flags := c_flags c AND NOT flagJSONEscape\<rparr>)"

definition hasQueryCache :: "DefaultContext \<Rightarrow> bool" where
  "hasQueryCache c = (c_flags c AND flagHasQueryCache \<noteq> 0)"

definition setHasQueryCache :: "bool \<Rightarrow> DefaultContext \<Rightarrow> DefaultContext" where
  "setHasQueryCache v c =
     (if v then c\<lparr>c_flags := c_flags c OR flagHasQueryCache\<rparr>
      else c\<lparr>c_flags := c_flags c AND NOT flagHasQueryCache\<rparr>)"

definition isFastHTTP :: "DefaultContext \<Rightarrow> bool" where
  "isFastHTTP c = (c_flags c AND flagIsFastHTTP \<noteq> 0)"

definition setFastHTTP :: "bool \<Rightarrow> DefaultContext \<Rightarrow> DefaultContext" where
  "setFastHTTP v c =
     (if v then c\<lparr>c_flags := c_flags c OR flagIsFastHTTP\<rparr>
      else c\<lparr>c_flags := c_flags c AND NOT flagIsFastHTTP\<rparr>)"

text \<open>
  \<open>resetCommon\<close>, statement by statement. The two loops over the parameter array are
  folds over the indices they visit; \<open>uint8(paramLen)\<close> truncates. The buffers are
  allocated when \<open>nil\<close> and cut to length 0 otherwise, so both end empty and non-nil.
  \<open>ps\<close> is the slice of parameters, of which \<open>resetCommon\<close> reads the length and the
  elements (a \<open>nil\<close> slice is the empty list).
\<close>

definition resetCommon :: "Param list \<Rightarrow> nat list \<Rightarrow> DefaultContext \<Rightarrow> DefaultContext" where
  "resetCommon ps appLogger c =
     (let paramLen = length ps;
          c1 = c\<lparr>c_paramCount := of_nat paramLen\<rparr>;
          c2 = (if paramLen = 0 then c1\<lparr>c_paramSlice := None\<rparr>
                else if paramLen \<le> 32 then
                  c1\<lparr>c_params := fold (\<lambda>i arr. arr[i := ps ! i]) [0..<paramLen] (c_params c1),
                     c_paramSlice := None\<rparr>
                else
                  c1\<lparr>c_paramSlice := Some ps,
                     c_params := fold (\<lambda>i arr. arr[i := Param [] []]) [0..<32] (c_params c1)\<rparr>);
          c3 = c2\<lparr>c_status := 0, c_wroteBytes := 0\<rparr>;
          c4 = (if isFastHTTP c3 then c3\<lparr>c_flags := flagJSONEscape OR flagIsFastHTTP\<rparr>
                else c3\<lparr>c_flags := flagJSONEscape\<rparr>);
          c5 = (if hasQueryCache c4 then setHasQueryCache False (c4\<lparr>c_queryCache := None\<rparr>)
                else c4);
          c6 = (case appLogger of [] \<Rightarrow> c5\<lparr>c_appLogger := None\<rparr>
                | l # _ \<Rightarrow> c5\<lparr>c_appLogger := Some l\<rparr>);
          c7 = (case c_responseBuffer c6 of None \<Rightarrow> c6\<lparr>c_responseBuffer := Some []\<rparr>
                | Some b \<Rightarrow> c6\<lparr>c_responseBuffer := Some (take 0 b)\<rparr>)
      in (case c_jsonBuffer c7 of None \<Rightarrow> c7\<lparr>c_jsonBuffer := Some []\<rparr>
          | Some b \<Rightarrow> c7\<lparr>c_jsonBuffer := Some (take 0 b)\<rparr>))"

definition Reset ::
  "ResponseWriter \<Rightarrow> Request \<Rightarrow> Param list \<Rightarrow> string \<Rightarrow> nat list \<Rightarrow> DefaultContext \<Rightarrow> DefaultContext" where
  "Reset wr rq ps rt appLogger c =
     resetCommon ps appLogger
       (setFastHTTP False (c\<lparr>c_w := Some wr, c_r := Some rq, c_fctx := None, c_route := rt\<rparr>))"

definition ResetFastHTTP ::
  "RequestCtx \<Rightarrow> Param list \<Rightarrow> string \<Rightarrow> nat list \<Rightarrow> DefaultContext \<Rightarrow> DefaultContext" where
  "ResetFastHTTP fc ps rt appLogger c =
     resetCommon ps appLogger
       (setFastHTTP True (c\<lparr>c_fctx := Some fc, c_w := None, c_r := None, c_route := rt\<rparr>))"

text \<open>\<open>Finish\<close> is a no-op.\<close>

definition Finish :: "DefaultContext \<Rightarrow> DefaultContext" where
  "Finish c = c"

text \<open>The zero value \<open>&ctx.DefaultContext{}\<close> that the pool's \<open>New\<close> function allocates.\<close>

definition zeroContext :: DefaultContext where
  "zeroContext =
     \<lparr>c_w = None, c_r = None, c_fctx = None, c_params = replicate 32 (Param [] []),
      c_paramSlice = None, c_paramCount = 0, c_status = 0, c_wroteBytes = 0, c_route = [],
      c_flags = 0, c_queryCache = None, c_appLogger = None, c_responseBuffer = None,
      c_jsonBuffer = None\<rparr>"


subsection \<open>Accessors\<close>

definition Request :: "DefaultContext \<Rightarrow> Request option" where
  "Request c = (if isFastHTTP c then None else c_r c)"

definition SetRequest :: "Request option \<Rightarrow> DefaultContext \<Rightarrow> DefaultContext" where
  "SetRequest rq c = (if \<not> isFastHTTP c then c\<lparr>c_r := rq\<rparr> else c)"

definition ResponseWriter :: "DefaultContext \<Rightarrow> ResponseWriter option" where
  "ResponseWriter c = (if isFastHTTP c then None else c_w c)"

definition SetResponseWriter :: "ResponseWriter option \<Rightarrow> DefaultContext \<Rightarrow> DefaultContext" where
  "SetResponseWriter wr c = (if \<not> isFastHTTP c then c\<lparr>c_w := wr\<rparr> else c)"

definition FastHTTPCtx :: "DefaultContext \<Rightarrow> RequestCtx option" where
  "FastHTTPCtx c = (if isFastHTTP c then c_fctx c else None)"

definition WroteHeader :: "DefaultContext \<Rightarrow> bool" where
  "WroteHeader c = wroteHeader c"

definition Method :: "DefaultContext \<Rightarrow> panic + string" where
  "Method c =
     (if isFastHTTP c then
        (case c_fctx c of None \<Rightarrow> Inl NilPointerDereference | Some f \<Rightarrow> Inr (fMethod f))
      else
        (case c_r c of None \<Rightarrow> Inl NilPointerDereference | Some rq \<Rightarrow> Inr (reqMethod rq)))"

definition Path :: "DefaultContext \<Rightarrow> panic + string" where
  "Path c =
     (if isFastHTTP c then
        (case c_fctx c of None \<Rightarrow> Inl NilPointerDereference | Some f \<Rightarrow> Inr (fPath f))
      else
        (case c_r c of None \<Rightarrow> Inl NilPointerDereference | Some rq \<Rightarrow> Inr (urlPath rq)))"

definition Route :: "DefaultContext \<Rightarrow> string" where
  "Route c = c_route c"

text \<open>
  The loop of \<open>Param\<close> over the parameter array,
  \<^verbatim>\<open>for i := uint8(0); i < c.paramCount; i++ { if c.params[i].Key == name { ... } }\<close>.
  Indexing the array at 32 or beyond panics.
\<close>

function paramScan :: "DefaultContext \<Rightarrow> string \<Rightarrow> nat \<Rightarrow> panic + string" where
  "paramScan c name i =
     (if i < unat (c_paramCount c) then
        (if length (c_params c) \<le> i then Inl IndexOutOfRange
         else if Key (c_params c ! i) = name then Inr (Value (c_params c ! i))
         else paramScan c name (Suc i))
      else Inr [])"
  by pat_completeness auto
termination
  by (relation "measure (\<lambda>(c, name, i). unat (c_paramCount c) - i)") auto

declare paramScan.simps [simp del]

definition Param_c :: "DefaultContext \<Rightarrow> string \<Rightarrow> panic + string" where
  "Param_c c name =
     (case c_paramSlice c of
        None \<Rightarrow> paramScan c name 0
      | Some ps \<Rightarrow> Inr (ByName ps name))"

text \<open>
  \<open>Query\<close>. \<open>parse\<close> stands for \<open>url.URL.Query\<close>, the parser of the raw query string;
  \<open>url.Values.Get\<close> returns the first value of the key, or \<open>""\<close> (also on a \<open>nil\<close> map).
  The call may fill the query cache, so the context is returned with the value.
\<close>

definition ValuesGet :: "HeaderMap option \<Rightarrow> string \<Rightarrow> string" where
  "ValuesGet vs k =
     (case vs of None \<Rightarrow> []
      | Some m \<Rightarrow> (case m k of None \<Rightarrow> [] | Some [] \<Rightarrow> [] | Some (v # _) \<Rightarrow> v))"

definition Query ::
  "(string \<Rightarrow> HeaderMap) \<Rightarrow> string \<Rightarrow> DefaultContext \<Rightarrow> panic + (string \<times> DefaultContext)" where
  "Query parse k c =
     (if isFastHTTP c then
        (case c_fctx c of None \<Rightarrow> Inl NilPointerDereference
         | Some f \<Rightarrow> Inr ((case fQueryArgs f k of None \<Rightarrow> [] | Some v \<Rightarrow> v), c))
      else
        (case c_r c of None \<Rightarrow> Inl NilPointerDereference
         | Some rq \<Rightarrow>
             if urlRawQuery rq = [] then Inr ([], c)
             else
               (let c1 = (if \<not> hasQueryCache c then
                            setHasQueryCache True (c\<lparr>c_queryCache := Some (parse (urlRawQuery rq))\<rparr>)
                          else c)
                in Inr (ValuesGet (c_queryCache c1) k, c1))))"

subsection \<open>Status and headers\<close>

text \<open>\<open>Status\<close>: \<open>uint16(code)\<close> truncates the \<open>int\<close>.\<close>

definition Status :: "int \<Rightarrow> DefaultContext \<Rightarrow> DefaultContext" where
  "Status code c = c\<lparr>c_status := word_of_int code\<rparr>"

definition StatusCode :: "DefaultContext \<Rightarrow> int" where
  "StatusCode c =
     (if c_status c \<noteq> 0 then uint (c_status c)
      else if wroteHeader c then 200
      else 0)"

definition headerContentTypeText :: string where
  "headerContentTypeText = ''text/plain; charset=utf-8''"
definition headerContentTypeJSON :: string where
  "headerContentTypeJSON = ''application/json; charset=utf-8''"
definition headerContentLength :: string where
  "headerContentLength = ''Content-Length''"
definition headerContentType :: string where
  "headerContentType = ''Content-Type''"

text \<open>
  \<open>Header\<close>. \<open>canon\<close> stands for \<open>http.CanonicalHeaderKey\<close> of the standard library.
  \<open>c.w.Header()\<close> on a \<open>nil\<close> writer, and any method of a \<open>nil\<close> \<open>fctx\<close>, panics.
\<close>

definition Header ::
  "(string \<Rightarrow> string) \<Rightarrow> string \<Rightarrow> string \<Rightarrow> DefaultContext \<Rightarrow> panic + DefaultContext" where
  "Header canon k v c =
     (if isFastHTTP c then
        (case c_fctx c of None \<Rightarrow> Inl NilPointerDereference
         | Some f \<Rightarrow> Inr (c\<lparr>c_fctx := Some (f\<lparr>respHeader := (respHeader f)(k \<mapsto> [v])\<rparr>)\<rparr>))
      else
        (case c_w c of None \<Rightarrow> Inl NilPointerDereference
         | Some wr \<Rightarrow> Inr (c\<lparr>c_w := Some (wr\<lparr>header := (header wr)(canon k \<mapsto> [v])\<rparr>)\<rparr>)))"

definition AddHeader :: "string \<Rightarrow> string \<Rightarrow> DefaultContext \<Rightarrow> panic + DefaultContext" where
  "AddHeader k v c =
     (if isFastHTTP c then
        (case c_fctx c of None \<Rightarrow> Inl NilPointerDereference
         | Some f \<Rightarrow> Inr (c\<lparr>c_fctx := Some (f\<lparr>respHeader := HeaderAdd (respHeader f) k v\<rparr>)\<rparr>))
      else
        (case c_w c of None \<Rightarrow> Inl NilPointerDereference
         | Some wr \<Rightarrow> Inr (c\<lparr>c_w := Some (wr\<lparr>header := HeaderAdd (header wr) k v\<rparr>)\<rparr>)))"

text \<open>
  \<open>SetHeaders\<close> and \<open>SetContentType\<close> have no branch on the transport: they go to
  \<open>c.w.Header()\<close> at once. \<open>headers\<close> lists the entries of the argument map in the order
  the \<open>range\<close> loop visits them.
\<close>

definition SetHeaders :: "(string \<times> string) list \<Rightarrow> DefaultContext \<Rightarrow> panic + DefaultContext" where
  "SetHeaders headers c =
     (case c_w c of None \<Rightarrow> Inl NilPointerDereference
      | Some wr \<Rightarrow>
          Inr (c\<lparr>c_w := Some (wr\<lparr>header := fold (\<lambda>(k, v) h. h(k \<mapsto> [v])) headers (header wr)\<rparr>)\<rparr>))"

definition SetContentType :: "string \<Rightarrow> DefaultContext \<Rightarrow> panic + DefaultContext" where
  "SetContentType contentType c =
     (case c_w c of None \<Rightarrow> Inl NilPointerDereference
      | Some wr \<Rightarrow>
          Inr (c\<lparr>c_w := Some (wr\<lparr>header := (header wr)(headerContentType \<mapsto> [contentType])\<rparr>)\<rparr>))"


subsection \<open>Writing the response\<close>

text \<open>
  \<open>strconv.Itoa\<close> on a length (never negative). \<open>fastContentLength n\<close> reads
  \<open>contentLengthCache[n]\<close>, which \<open>init\<close> fills with \<open>strconv.Itoa(n)\<close>, for
  \<open>n < 8192\<close> and calls \<open>strconv.Itoa(n)\<close> otherwise, so it is \<open>Itoa\<close> either way.
\<close>

function Itoa :: "nat \<Rightarrow> string" where
  "Itoa n = (if n < 10 then [char_of (48 + n)] else Itoa (n div 10) @ [char_of (48 + n mod 10)])"
  by pat_completeness auto
termination
  by (relation "measure id") auto

declare Itoa.simps [simp del]

definition fastContentLength :: "nat \<Rightarrow> string" where
  "fastContentLength n = (if n < 8192 then Itoa n else Itoa n)"

text \<open>
  The block that \<open>String\<close> and \<open>Send\<close> run in net/http mode when the header has not
  been written: default the content type, set the content length, \<open>WriteHeader\<close>,
  set the flag. \<open>String\<close> passes its fixed content type, \<open>Send\<close> its argument, which it
  skips when empty.
\<close>

definition String ::
  "int \<Rightarrow> string \<Rightarrow> DefaultContext \<Rightarrow> panic + (error option \<times> DefaultContext)" where
  "String st body c =
     (if isFastHTTP c then
        (case c_fctx c of None \<Rightarrow> Inl NilPointerDereference
         | Some f \<Rightarrow>
             Inr (None,
               setWroteHeader True
                 (c\<lparr>c_fctx := Some (f\<lparr>respStatusCode := st,
                                        respContentType := headerContentTypeText,
                                        respBody := body\<rparr>),
                    c_wroteBytes := c_wroteBytes c + int (length body)\<rparr>)))
      else
        (case c_w c of None \<Rightarrow> Inl NilPointerDereference
         | Some wr \<Rightarrow>
             (let wc =
                (if \<not> wroteHeader c then
                   (let h = header wr;
                        h1 = (if HeaderGet h headerContentType = []
                              then h(headerContentType \<mapsto> [headerContentTypeText]) else h);
                        h2 = h1(headerContentLength \<mapsto> [fastContentLength (length body)])
                    in (WriteHeader st (wr\<lparr>header := h2\<rparr>), setWroteHeader True c))
                 else (wr, c))
              in Inr (None,
                   (snd wc)\<lparr>c_w := Some (Write body (fst wc)),
                             c_wroteBytes := c_wroteBytes (snd wc) + int (length body)\<rparr>))))"

text \<open>
  \<open>Send\<close> has no branch on the transport: it reads \<open>c.w\<close> in either mode. It returns
  the number of bytes written and the writer's error.
\<close>

definition Send ::
  "int \<Rightarrow> string \<Rightarrow> string \<Rightarrow> DefaultContext \<Rightarrow> panic + ((int \<times> error option) \<times> DefaultContext)" where
  "Send st contentType b c =
     (case c_w c of None \<Rightarrow> Inl NilPointerDereference
      | Some wr \<Rightarrow>
          (let wc =
             (if \<not> wroteHeader c then
                (let h = header wr;
                     h1 = (if contentType \<noteq> [] \<and> HeaderGet h headerContentType = []
                           then h(headerContentType \<mapsto> [contentType]) else h);
                     h2 = h1(headerContentLength \<mapsto> [fastContentLength (length b)])
                 in (WriteHeader st (wr\<lparr>header := h2\<rparr>), setWroteHeader True c))
              else (wr, c))
           in Inr ((int (length b), None),
                (snd wc)\<lparr>c_w := Some (Write b (fst wc)),
                          c_wroteBytes := c_wroteBytes (snd wc) + int (length b)\<rparr>)))"

text \<open>
  \<open>JSON\<close>. \<open>marshal\<close> stands for the JSON encoder applied to the value: its argument
  is the \<open>jsonEscape\<close> flag (which of the two encoder configurations is used), its
  result the encoder's error or the bytes.
\<close>

definition JSON ::
  "(bool \<Rightarrow> error + string) \<Rightarrow> DefaultContext \<Rightarrow> panic + (error option \<times> DefaultContext)" where
  "JSON marshal c =
     (case marshal (jsonEscape c) of
        Inl err \<Rightarrow>
          (if isFastHTTP c then
             (case c_fctx c of None \<Rightarrow> Inl NilPointerDereference
              | Some f \<Rightarrow> Inr (Some err, c\<lparr>c_fctx := Some (f\<lparr>respStatusCode := 500\<rparr>)\<rparr>))
           else if \<not> wroteHeader c then
             (case c_w c of None \<Rightarrow> Inl NilPointerDereference
              | Some wr \<Rightarrow> Inr (Some err, setWroteHeader True (c\<lparr>c_w := Some (WriteHeader 500 wr)\<rparr>)))
           else Inr (Some err, c))
      | Inr b \<Rightarrow>
          (if isFastHTTP c then
             (let c1 = (if c_status c = 0 then c\<lparr>c_status := 200\<rparr> else c) in
              (case c_fctx c1 of None \<Rightarrow> Inl NilPointerDereference
               | Some f \<Rightarrow>
                   Inr (None,
                     setWroteHeader True
                       (c1\<lparr>c_fctx := Some (f\<lparr>respStatusCode := uint (c_status c1),
                                               respContentType := headerContentTypeJSON,
                                               respBody := b\<rparr>),
                           c_wroteBytes := c_wroteBytes c1 + int (length b)\<rparr>))))
           else
             (case c_w c of None \<Rightarrow> Inl NilPointerDereference
              | Some wr \<Rightarrow>
                  (let wc =
                     (if \<not> wroteHeader c then
                        (let c1 = (if c_status c = 0 then c\<lparr>c_status := 200\<rparr> else c);
                             h = header wr;
                             h1 = (if length (case h headerContentType of None \<Rightarrow> [] | Some vs \<Rightarrow> vs) = 0
                                   then h(headerContentType \<mapsto> [headerContentTypeJSON]) else h);
                             h2 = h1(headerContentLength \<mapsto> [fastContentLength (length b)])
                         in (WriteHeader (uint (c_status c1)) (wr\<lparr>header := h2\<rparr>),
                             setWroteHeader True c1))
                      else (wr, c))
                   in Inr (None,
                        (snd wc)\<lparr>c_w := Some (Write b (fst wc)),
                                  c_wroteBytes := c_wroteBytes (snd wc) + int (length b)\<rparr>)))))"


section \<open>Handlers and the middleware chain (app package)\<close>

text \<open>
  A \<open>Handler\<close> is \<open>func(Ctx) error\<close>: it works on the context it is given and returns an
  error or \<open>nil\<close>. In the model it takes the context and returns the error together
  with the context as it has left it, or the panic that ended it. A \<open>Middleware\<close> is
  \<open>func(Handler) Handler\<close>. An \<open>ErrorHandler\<close> is \<open>func(Ctx, error)\<close>.
\<close>

type_synonym Handler = "DefaultContext \<Rightarrow> panic + (error option \<times> DefaultContext)"
type_synonym Middleware = "Handler \<Rightarrow> Handler"
type_synonym ErrorHandler = "DefaultContext \<Rightarrow> error \<Rightarrow> panic + DefaultContext"

record FastChain =
  exec :: Handler


text \<open>
  The loop of the \<open>default\<close> case of \<open>newFastChain\<close>,
  \<^verbatim>\<open>for i := len(middlewares) - 1; i >= 0; i-- { exec = middlewares[i](exec) }\<close>:
  \<open>composeLoop middlewares n exec\<close> is the loop with \<open>n\<close> iterations left, that is at
  \<open>i = n - 1\<close>.
\<close>

primrec composeLoop :: "Middleware list \<Rightarrow> nat \<Rightarrow> Handler \<Rightarrow> Handler" where
  "composeLoop middlewares 0 ex = ex"
| "composeLoop middlewares (Suc i) ex = composeLoop middlewares i ((middlewares ! i) ex)"

fun newFastChain :: "Middleware list \<Rightarrow> Handler \<Rightarrow> FastChain" where
  "newFastChain [] handler = \<lparr>exec = handler\<rparr>"
| "newFastChain [mw] handler = \<lparr>exec = mw handler\<rparr>"
| "newFastChain [mw1, mw2] handler = \<lparr>exec = mw1 (mw2 handler)\<rparr>"
| "newFastChain [mw1, mw2, mw3] handler = \<lparr>exec = mw1 (mw2 (mw3 handler))\<rparr>"
| "newFastChain (mw1 # mw2 # mw3 # mw4 # mws) handler =
     \<lparr>exec = composeLoop (mw1 # mw2 # mw3 # mw4 # mws)
               (length (mw1 # mw2 # mw3 # mw4 # mws)) handler\<rparr>"

section \<open>Route table and registration\<close>

text \<open>
  A Go map is modelled by the list of its entries, with one entry per key: \<open>m[k]\<close> is
  \<open>map_of m k\<close>, \<open>m[k] = v\<close> is \<open>AList.update k v m\<close> (which replaces the value of a key
  that is present and adds an entry otherwise), \<open>len(m)\<close> is \<open>length m\<close>. The order of
  the list carries no meaning: a \<open>range\<close> loop over a Go map visits the keys in an order
  the language leaves unspecified, so a loop whose result can depend on the order
  (\<open>findRoute\<close>) takes the order of its visit as an argument.

  \<open>FastRouter.dynamic\<close> is never read or written after \<open>newFastRouter\<close> and is left
  out; so are the locks and the logger.
\<close>

record routeResult =
  rr_chain :: FastChain
  rr_params :: "Param list"
  rr_pattern :: string

record FastRouter =
  static :: "(string \<times> FastChain) list"
  simple :: "(string \<times> Handler) list"

record DefaultApp =
  router :: FastRouter
  middleware :: "Middleware list"
  routeCache :: "(string \<times> routeResult option) list"
  OnError :: ErrorHandler
  NotFound :: Handler
  MethodNA :: Handler

definition defaultNotFoundHandler :: Handler where
  "defaultNotFoundHandler c = String 404 ''Not Found'' c"

definition defaultMethodNotAllowedHandler :: Handler where
  "defaultMethodNotAllowedHandler c = String 405 ''Method Not Allowed'' c"

text \<open>
  \<open>New\<close>. The default error handler is defined outside the files at hand and is an
  argument here.
\<close>

definition New :: "ErrorHandler \<Rightarrow> DefaultApp" where
  "New defaultErrorHandler =
     \<lparr>router = \<lparr>static = [], simple = []\<rparr>, middleware = [], routeCache = [],
      OnError = defaultErrorHandler, NotFound = defaultNotFoundHandler,
      MethodNA = defaultMethodNotAllowedHandler\<rparr>"


fun containsParams :: "string \<Rightarrow> bool" where
  "containsParams [] = False"
| "containsParams (ch # rest) =
     (if ch = CHR '':'' \<or> ch = CHR ''*'' then True else containsParams rest)"

definition addDynamicRoute :: "string \<Rightarrow> string \<Rightarrow> FastChain \<Rightarrow> DefaultApp \<Rightarrow> DefaultApp" where
  "addDynamicRoute method path chain a =
     (let key = method @ '':'' @ path
      in a\<lparr>router := (router a)\<lparr>static := AList.update key chain (static (router a))\<rparr>\<rparr>)"

definition handle :: "string \<Rightarrow> string \<Rightarrow> Handler \<Rightarrow> Middleware list \<Rightarrow> DefaultApp \<Rightarrow> DefaultApp" where
  "handle method path h mws a =
     (let allMiddleware = middleware a @ mws;
          chain = newFastChain allMiddleware h;
          routeKey = method @ '':'' @ path
      in if length allMiddleware = 0 \<and> \<not> containsParams path then
           a\<lparr>router := (router a)\<lparr>simple := AList.update routeKey h (simple (router a))\<rparr>\<rparr>
         else if \<not> containsParams path then
           a\<lparr>router := (router a)\<lparr>static := AList.update routeKey chain (static (router a))\<rparr>\<rparr>
         else addDynamicRoute method path chain a)"

section \<open>Resolution and dispatch\<close>

definition HasPrefix :: "string \<Rightarrow> string \<Rightarrow> bool" where
  "HasPrefix s pre = (length pre \<le> length s \<and> take (length pre) s = pre)"

definition TrimPrefix :: "string \<Rightarrow> string \<Rightarrow> string" where
  "TrimPrefix s pre = (if HasPrefix s pre then drop (length pre) s else s)"

text \<open>
  The loop of \<open>findRoute\<close> over \<open>a.router.static\<close>. \<open>order\<close> is the order in which the
  \<open>range\<close> loop visits the keys of the map; an element of \<open>order\<close> that is not a key of
  the map is not visited.
\<close>

fun scanRoutes :: "(string \<times> FastChain) list \<Rightarrow> string \<Rightarrow> string \<Rightarrow> string list \<Rightarrow> routeResult option" where
  "scanRoutes st method path [] = None"
| "scanRoutes st method path (routeKey # rest) =
     (case map_of st routeKey of
        None \<Rightarrow> scanRoutes st method path rest
      | Some chain \<Rightarrow>
          if \<not> HasPrefix routeKey (method @ '':'') then scanRoutes st method path rest
          else
            (case matchRoute (TrimPrefix routeKey (method @ '':'')) path of
               Some ps \<Rightarrow>
                 Some \<lparr>rr_chain = chain, rr_params = ps,
                       rr_pattern = TrimPrefix routeKey (method @ '':'')\<rparr>
             | None \<Rightarrow> scanRoutes st method path rest))"

text \<open>
  \<open>findRoute\<close> returns the result (\<open>None\<close> is the \<open>nil\<close> pointer) and the application
  with the cache as the call has left it. A cached entry is \<open>Some None\<close> for a recorded
  miss.
\<close>

definition findRoute ::
  "string list \<Rightarrow> string \<Rightarrow> string \<Rightarrow> DefaultApp \<Rightarrow> routeResult option \<times> DefaultApp" where
  "findRoute order method path a =
     (let cacheKey = method @ '':'' @ path
      in case map_of (routeCache a) cacheKey of
           Some cached \<Rightarrow> (cached, a)
         | None \<Rightarrow>
             (case scanRoutes (static (router a)) method path order of
                Some result \<Rightarrow>
                  (Some result,
                   if length (routeCache a) < 1000
                   then a\<lparr>routeCache := AList.update cacheKey (Some result) (routeCache a)\<rparr>
                   else a)
              | None \<Rightarrow>
                  (None,
                   if length (routeCache a) < 1000
                   then a\<lparr>routeCache := AList.update cacheKey None (routeCache a)\<rparr>
                   else a)))"

text \<open>\<open>strings.SplitN(routeKey, ":", 2)\<close>: cut at the first colon, if there is one.\<close>

definition SplitN2 :: "string \<Rightarrow> string list" where
  "SplitN2 s =
     (if CHR '':'' \<in> set s
      then [takeWhile (\<lambda>ch. ch \<noteq> CHR '':'') s, drop 1 (dropWhile (\<lambda>ch. ch \<noteq> CHR '':'') s)]
      else [s])"

text \<open>
  The two loops of \<open>pathExistsWithDifferentMethod\<close> over the keys of \<open>simple\<close> and of
  \<open>static\<close>. They return on the first key that qualifies, so the result does not depend
  on the order of the visit.
\<close>

fun existsSimple :: "string list \<Rightarrow> string \<Rightarrow> string \<Rightarrow> bool" where
  "existsSimple [] method path = False"
| "existsSimple (routeKey # rest) method path =
     (let parts = SplitN2 routeKey
      in if length parts = 2 \<and> parts ! 1 = path \<and> parts ! 0 \<noteq> method then True
         else existsSimple rest method path)"

fun existsStatic :: "string list \<Rightarrow> string \<Rightarrow> string \<Rightarrow> bool" where
  "existsStatic [] method path = False"
| "existsStatic (routeKey # rest) method path =
     (let parts = SplitN2 routeKey
      in if length parts = 2 \<and> parts ! 1 = path \<and> parts ! 0 \<noteq> method then True
         else if length parts = 2 \<and> parts ! 0 \<noteq> method \<and> matchRoute (parts ! 1) path \<noteq> None
         then True
         else existsStatic rest method path)"

definition pathExistsWithDifferentMethod :: "string \<Rightarrow> string \<Rightarrow> DefaultApp \<Rightarrow> bool" where
  "pathExistsWithDifferentMethod method path a =
     (if existsSimple (map fst (simple (router a))) method path then True
      else existsStatic (map fst (static (router a))) method path)"

text \<open>
  The block that every branch of \<open>ServeHTTP\<close> and \<open>ServeFastHTTP\<close> runs on the context
  once it is reset: call the handler, pass a non-nil error to the error handler,
  \<open>Finish\<close>.
\<close>

definition runHandler :: "DefaultApp \<Rightarrow> Handler \<Rightarrow> DefaultContext \<Rightarrow> panic + DefaultContext" where
  "runHandler a h c =
     (case h c of
        Inl p \<Rightarrow> Inl p
      | Inr (None, c') \<Rightarrow> Inr (Finish c')
      | Inr (Some err, c') \<Rightarrow>
          (case OnError a c' err of Inl p \<Rightarrow> Inl p | Inr c'' \<Rightarrow> Inr (Finish c'')))"




section \<open>Notions used in the statements\<close>

text \<open>
  \<open>visits m order\<close>: \<open>order\<close> is an order in which a \<open>range\<close> loop can visit the map
  \<open>m\<close>, that is, it lists every key of \<open>m\<close> once and nothing else.
\<close>

definition visits :: "('k \<times> 'v) list \<Rightarrow> 'k list \<Rightarrow> bool" where
  "visits m order = (distinct order \<and> set order = fst ` set m)"

text \<open>
  Handlers, middleware and transports for the concrete scenarios. \<open>respond body\<close> is the
  handler of the repository's examples, \<^verbatim>\<open>func(c Ctx) error { return c.String(http.StatusOK, body) }\<close>;
  \<open>noopErrorHandler\<close> is an error handler that leaves the context as it is.
\<close>

definition respond :: "string \<Rightarrow> Handler" where
  "respond body c = String 200 body c"

definition noopErrorHandler :: ErrorHandler where
  "noopErrorHandler c err = Inr c"

text \<open>A response writer on which nothing has been set or sent, and a request without query.\<close>

definition newWriter :: ResponseWriter where
  "newWriter = \<lparr>header = Map.empty, wireStatus = None, wireHeader = Map.empty, wireBody = []\<rparr>"

definition newRequest :: "string \<Rightarrow> string \<Rightarrow> Request" where
  "newRequest method path = \<lparr>reqMethod = method, urlPath = path, urlRawQuery = []\<rparr>"

text \<open>A fasthttp request context with an empty response buffer (fasthttp's default status is 200).\<close>

definition newRequestCtx :: "string \<Rightarrow> string \<Rightarrow> RequestCtx" where
  "newRequestCtx method path =
     \<lparr>fMethod = method, fPath = path, fQueryArgs = Map.empty, respStatusCode = 200,
      respHeader = Map.empty, respContentType = [], respBody = []\<rparr>"




text \<open>
  \<open>usedContext\<close> is a context as a request leaves it in the pool: it has served
  \<open>GET /users/42\<close> on the route \<open>/users/:id\<close>, staged the status 404 and written a body.
  \<open>fastContext\<close> is a context reset for a fasthttp request. \<open>bufferedStatus\<close>,
  \<open>bufferedHeader\<close> and \<open>bufferedBody\<close> read the response that the fasthttp request
  context of a context holds.
\<close>

definition usedContext :: DefaultContext where
  "usedContext =
     (case String 404 ''gone''
             (Status 404
               (Reset newWriter (newRequest ''GET'' ''/users/42'') [Param ''id'' ''42'']
                  ''/users/:id'' [0] zeroContext)) of
        Inr (err, c) \<Rightarrow> c
      | Inl p \<Rightarrow> zeroContext)"

definition fastContext :: DefaultContext where
  "fastContext = ResetFastHTTP (newRequestCtx ''GET'' ''/x'') [] ''/x'' [0] zeroContext"

definition bufferedStatus :: "DefaultContext \<Rightarrow> int option" where
  "bufferedStatus c = map_option respStatusCode (c_fctx c)"

definition bufferedHeader :: "DefaultContext \<Rightarrow> string \<Rightarrow> string list option" where
  "bufferedHeader c k = (case c_fctx c of None \<Rightarrow> None | Some f \<Rightarrow> respHeader f k)"

definition bufferedBody :: "DefaultContext \<Rightarrow> string option" where
  "bufferedBody c = map_option respBody (c_fctx c)"

text \<open>\<open>isOK res\<close>: the operation has returned, it has not panicked.\<close>

definition isOK :: "panic + 'a \<Rightarrow> bool" where
  "isOK res = (case res of Inl p \<Rightarrow> False | Inr x \<Rightarrow> True)"

text \<open>
  The loop of \<open>matchRoute\<close> seen on the rests of the two strings: \<open>matchSuffix p q ps\<close>
  is the loop started with \<open>p\<close> left of the pattern, \<open>q\<close> left of the path and the
  parameters \<open>ps\<close> collected (lemma \<open>matchLoop_matchSuffix\<close> below). \<open>dropSlash\<close> is
  \<open>skipSlash\<close> on a rest.
\<close>

abbreviation notSlash :: "char \<Rightarrow> bool" where
  "notSlash \<equiv> (\<lambda>ch. ch \<noteq> CHR ''/'')"

definition dropSlash :: "string \<Rightarrow> string" where
  "dropSlash s = (case s of [] \<Rightarrow> [] | ch # rest \<Rightarrow> if ch = CHR ''/'' then rest else s)"

lemma length_dropSlash_dropWhile:
  "s \<noteq> [] \<Longrightarrow> length (dropSlash (dropWhile notSlash s)) < length s"
proof (cases s)
  case Nil
  then show "s \<noteq> [] \<Longrightarrow> ?thesis" by simp
next
  case (Cons ch rest)
  have le: "length (dropWhile notSlash rest) \<le> length rest" by (rule length_dropWhile_le)
  have ds: "length (dropSlash xs) \<le> length xs" for xs
    by (cases xs) (simp_all add: dropSlash_def)
  show ?thesis
  proof (cases "ch = CHR ''/''")
    case True
    with Cons show ?thesis by (simp add: dropSlash_def)
  next
    case False
    with Cons have "dropWhile notSlash s = dropWhile notSlash rest" by simp
    with ds [of "dropWhile notSlash rest"] le Cons show ?thesis by simp
  qed
qed

function matchSuffix :: "string \<Rightarrow> string \<Rightarrow> Param list \<Rightarrow> Param list option" where
  "matchSuffix p q ps =
     (if p \<noteq> [] \<and> q \<noteq> [] then
        (if takeWhile notSlash p \<noteq> [] \<and> hd (takeWhile notSlash p) = CHR ''*'' then
           Some (ps @ [Param (tl (takeWhile notSlash p)) q])
         else if takeWhile notSlash p \<noteq> [] \<and> hd (takeWhile notSlash p) = CHR '':'' then
           matchSuffix (dropSlash (dropWhile notSlash p)) (dropSlash (dropWhile notSlash q))
             (ps @ [Param (tl (takeWhile notSlash p)) (takeWhile notSlash q)])
         else if takeWhile notSlash p \<noteq> takeWhile notSlash q then None
         else matchSuffix (dropSlash (dropWhile notSlash p)) (dropSlash (dropWhile notSlash q)) ps)
      else if p \<noteq> [] \<or> q \<noteq> [] then None
      else Some ps)"
  by pat_completeness auto
termination
  by (relation "measure (\<lambda>(p, q, ps). length p)") (auto simp: length_dropSlash_dropWhile)

declare matchSuffix.simps [simp del]








text \<open>
  Applications for the scenarios. \<open>dupApp\<close>: the pattern \<open>/r/:id\<close> registered twice under
  \<open>GET\<close>, with the handlers \<open>respond "first"\<close> and then \<open>respond "second"\<close>.
  \<open>twoRoutes\<close>: two patterns that both match \<open>/a/b\<close>; \<open>overlapApp\<close>: the same with a
  route cache that is full: \<open>missCache n\<close> holds the misses recorded for \<open>GET /\<close>,
  \<open>GET /x\<close>, \<open>GET /xx\<close>, ... (\<open>n\<close> paths that neither pattern matches). \<open>servedBody\<close> reads the body on the wire of
  the net/http writer after a dispatch.
\<close>

definition missCache :: "nat \<Rightarrow> (string \<times> routeResult option) list" where
  "missCache n = map (\<lambda>i. (''GET:/'' @ replicate i CHR ''x'', None)) [0..<n]"

definition twoRoutes :: DefaultApp where
  "twoRoutes =
     handle ''GET'' ''/a/:x'' (respond ''first'') []
       (handle ''GET'' ''/:y/b'' (respond ''second'') [] (New noopErrorHandler))"

definition overlapApp :: DefaultApp where
  "overlapApp = twoRoutes\<lparr>routeCache := missCache 1000\<rparr>"









section \<open>Properties of the matcher\<close>

lemma visits_single: "visits [(k, v)] order \<Longrightarrow> order = [k]"
proof -
  assume v: "visits [(k, v)] order"
  then have d: "distinct order" and s: "set order = {k}" by (simp_all add: visits_def)
  from s obtain x xs where o: "order = x # xs" by (cases order) auto
  with s have "x = k" by auto
  moreover from o d s have "xs = []" by (cases xs) auto
  ultimately show ?thesis using o by simp
qed

text \<open>
  C5. For the wildcard pattern \<open>/files/*rest\<close> and the path \<open>/files/a/b/c\<close> the matcher
  succeeds at the wildcard and binds \<open>rest\<close> to \<open>a/b/c\<close>, the rest of the path with its
  slashes; and with the pattern registered (under any method, with any handler and
  middleware) resolution of the path returns the registered chain with that binding.
  The same holds for every non-empty rest \<open>s\<close> of the path other than the text
  \<open>*rest\<close> itself.
\<close>

theorem wildcard_binds_rest:
  assumes "s \<noteq> []" and "s \<noteq> ''*rest''"
    and "visits (static (router (handle m ''/files/*rest'' h mws (New eh)))) order"
  shows "matchRoute ''/files/*rest'' (''/files/'' @ s) = Some [Param ''rest'' s]
    \<and> fst (findRoute order m (''/files/'' @ s) (handle m ''/files/*rest'' h mws (New eh)))
        = Some \<lparr>rr_chain = newFastChain mws h, rr_params = [Param ''rest'' s],
                 rr_pattern = ''/files/*rest''\<rparr>"
proof -
  have mr: "matchRoute ''/files/*rest'' (''/files/'' @ s) = Some [Param ''rest'' s]"
    using assms(1,2)
    by (simp add: matchRoute_def ContainsAny_def matchLoop.simps segEnd.simps skipSlash_def
        slice_def)
  have st: "static (router (handle m ''/files/*rest'' h mws (New eh)))
      = [(m @ '':/files/*rest'', newFastChain mws h)]"
    by (simp add: handle_def New_def addDynamicRoute_def)
  with assms(3) have o: "order = [m @ '':/files/*rest'']"
    by (simp add: visits_single)
  have "fst (findRoute [m @ '':/files/*rest''] m (''/files/'' @ s)
          (handle m ''/files/*rest'' h mws (New eh)))
        = Some \<lparr>rr_chain = newFastChain mws h, rr_params = [Param ''rest'' s],
                 rr_pattern = ''/files/*rest''\<rparr>"
    using mr
    by (simp add: findRoute_def handle_def New_def addDynamicRoute_def HasPrefix_def
        TrimPrefix_def)
  with mr o show ?thesis by simp
qed

theorem wildcard_binds_rest_witness:
  "matchRoute ''/files/*rest'' ''/files/a/b/c'' = Some [Param ''rest'' ''a/b/c'']
    \<and> fst (findRoute [''GET:/files/*rest''] ''GET'' ''/files/a/b/c''
            (handle ''GET'' ''/files/*rest'' defaultNotFoundHandler [] (New (\<lambda>c e. Inr c))))
        = Some \<lparr>rr_chain = newFastChain [] defaultNotFoundHandler,
                 rr_params = [Param ''rest'' ''a/b/c''], rr_pattern = ''/files/*rest''\<rparr>"
proof -
  have v: "visits (static (router (handle ''GET'' ''/files/*rest'' defaultNotFoundHandler []
      (New (\<lambda>c e. Inr c))))) [''GET:/files/*rest'']"
    by (simp add: visits_def handle_def New_def addDynamicRoute_def)
  show ?thesis
    using wildcard_binds_rest [of "''a/b/c''" "''GET''" defaultNotFoundHandler "[]"
        "\<lambda>c e. Inr c" "[''GET:/files/*rest'']", OF _ _ v]
    by simp
qed

section \<open>Properties of the route cache\<close>

lemma routeCache_handle: "routeCache (handle m p h mws a) = routeCache a"
  by (simp add: handle_def addDynamicRoute_def Let_def)

lemma router_findRoute: "router (snd (findRoute order method path a)) = router a"
  by (simp add: findRoute_def Let_def split: option.splits)

lemma findRoute_cached:
  "map_of (routeCache a) (method @ '':'' @ path) = Some cached \<Longrightarrow>
     findRoute order method path a = (cached, a)"
  by (simp add: findRoute_def)

lemma findRoute_records_miss:
  assumes "findRoute order method path a = (None, a1)"
    and "length (routeCache a) < 1000"
  shows "map_of (routeCache a1) (method @ '':'' @ path) = Some None"
  using assms
  by (auto simp: findRoute_def Let_def update_conv' split: option.splits if_splits)

text \<open>
  C10. Registration never touches the route cache: once a miss for \<open>(method, path)\<close>
  is recorded in the cache, \<open>findRoute\<close> for that method and path returns the cached miss
  (and leaves the application as it is) after any further registration \<open>handle m p h mws\<close>,
  whatever route it registers and in whatever order the table would be scanned.
\<close>

theorem cached_miss_survives_registration:
  assumes "map_of (routeCache a) (method @ '':'' @ path) = Some None"
  shows "findRoute order method path (handle m p h mws a) = (None, handle m p h mws a)"
proof -
  from assms
  have "map_of (routeCache (handle m p h mws a)) (method @ '':'' @ path) = Some None"
    by (simp add: routeCache_handle)
  then show ?thesis by (rule findRoute_cached)
qed

text \<open>
  The scenario: on a new application \<open>GET /users/42\<close> is resolved and the miss is
  recorded; then \<open>GET /users/:id\<close> is registered, a pattern that matches the path and
  that a scan of the table finds; \<open>findRoute\<close> still returns the miss.
\<close>

theorem cached_miss_survives_registration_witness:
  "findRoute [] ''GET'' ''/users/42'' (New noopErrorHandler)
     = (None, (New noopErrorHandler)\<lparr>routeCache := [(''GET:/users/42'', None)]\<rparr>)
   \<and> map_of (routeCache ((New noopErrorHandler)\<lparr>routeCache := [(''GET:/users/42'', None)]\<rparr>))
        (''GET'' @ '':'' @ ''/users/42'') = Some None
   \<and> matchRoute ''/users/:id'' ''/users/42'' = Some [Param ''id'' ''42'']
   \<and> scanRoutes
        (static (router (handle ''GET'' ''/users/:id'' (respond ''user'') []
           ((New noopErrorHandler)\<lparr>routeCache := [(''GET:/users/42'', None)]\<rparr>))))
        ''GET'' ''/users/42'' [''GET:/users/:id'']
       = Some \<lparr>rr_chain = newFastChain [] (respond ''user''),
               rr_params = [Param ''id'' ''42''], rr_pattern = ''/users/:id''\<rparr>
   \<and> fst (findRoute [''GET:/users/:id''] ''GET'' ''/users/42''
        (handle ''GET'' ''/users/:id'' (respond ''user'') []
           ((New noopErrorHandler)\<lparr>routeCache := [(''GET:/users/42'', None)]\<rparr>))) = None"
proof -
  have rec: "map_of (routeCache ((New noopErrorHandler)\<lparr>routeCache := [(''GET:/users/42'', None)]\<rparr>))
      (''GET'' @ '':'' @ ''/users/42'') = Some None"
    by simp
  have first: "findRoute [] ''GET'' ''/users/42'' (New noopErrorHandler)
     = (None, (New noopErrorHandler)\<lparr>routeCache := [(''GET:/users/42'', None)]\<rparr>)"
    by (simp add: findRoute_def New_def)
  have mr: "matchRoute ''/users/:id'' ''/users/42'' = Some [Param ''id'' ''42'']"
    by (simp add: matchRoute_def ContainsAny_def matchLoop.simps segEnd.simps skipSlash_def
        slice_def)
  have scan: "scanRoutes
        (static (router (handle ''GET'' ''/users/:id'' (respond ''user'') []
           ((New noopErrorHandler)\<lparr>routeCache := [(''GET:/users/42'', None)]\<rparr>))))
        ''GET'' ''/users/42'' [''GET:/users/:id'']
       = Some \<lparr>rr_chain = newFastChain [] (respond ''user''),
               rr_params = [Param ''id'' ''42''], rr_pattern = ''/users/:id''\<rparr>"
    using mr by (simp add: handle_def New_def addDynamicRoute_def HasPrefix_def TrimPrefix_def)
  from cached_miss_survives_registration [OF rec, of "[''GET:/users/:id'']" "''GET''"
      "''/users/:id''" "respond ''user''" "[]"]
  have last: "fst (findRoute [''GET:/users/:id''] ''GET'' ''/users/42''
        (handle ''GET'' ''/users/:id'' (respond ''user'') []
           ((New noopErrorHandler)\<lparr>routeCache := [(''GET:/users/42'', None)]\<rparr>))) = None"
    by simp
  from first rec mr scan last show ?thesis by (intro conjI)
qed

section \<open>Properties of the middleware chain\<close>

lemma flags_eval [simp]:
  "flagWroteHeader = 1" "flagJSONEscape = 2" "flagHasQueryCache = 4" "flagIsFastHTTP = 8"
  by (simp_all add: flagWroteHeader_def flagJSONEscape_def flagHasQueryCache_def
      flagIsFastHTTP_def)

lemma composeLoop_take:
  "n \<le> length mws \<Longrightarrow> composeLoop mws n ex = foldr (\<lambda>mw next. mw next) (take n mws) ex"
proof (induction n arbitrary: ex)
  case 0
  then show ?case by simp
next
  case (Suc n)
  then have "take (Suc n) mws = take n mws @ [mws ! n]"
    by (simp add: take_Suc_conv_app_nth)
  with Suc show ?case by simp
qed

text \<open>
  The special cases of \<open>newFastChain\<close> for up to three middlewares and its loop agree
  with the general right-to-left composition.
\<close>

lemma exec_newFastChain:
  "exec (newFastChain mws h) = foldr (\<lambda>mw next. mw next) mws h"
proof (cases "(mws, h)" rule: newFastChain.cases)
  case (5 mw1 mw2 mw3 mw4 rest handler)
  then show ?thesis
    using composeLoop_take [of "length mws" mws h] by simp
qed simp_all




section \<open>Properties of the context\<close>

text \<open>
  \<open>resetCommon\<close> in one step: the fields it writes and what it writes to them. The
  test of \<open>hasQueryCache\<close> comes after the flags have been overwritten, so it never
  holds and \<open>queryCache\<close> is not among the fields written.
\<close>

lemma isFastHTTP_update_flags:
  "isFastHTTP (c\<lparr>c_flags := f\<rparr>) = (f AND 8 \<noteq> 0)"
  by (simp add: isFastHTTP_def)

lemma resetCommon_eq:
  "resetCommon ps lg c =
     c\<lparr>c_paramCount := of_nat (length ps),
       c_params := (if length ps = 0 then c_params c
                    else if length ps \<le> 32
                    then fold (\<lambda>i arr. arr[i := ps ! i]) [0..<length ps] (c_params c)
                    else fold (\<lambda>i arr. arr[i := Param [] []]) [0..<32] (c_params c)),
       c_paramSlice := (if length ps \<le> 32 then None else Some ps),
       c_status := 0, c_wroteBytes := 0,
       c_flags := (if isFastHTTP c then 10 else 2),
       c_appLogger := (case lg of [] \<Rightarrow> None | l # _ \<Rightarrow> Some l),
       c_responseBuffer := Some [], c_jsonBuffer := Some []\<rparr>"
proof -
  have b1: "(case x of None \<Rightarrow> d\<lparr>c_responseBuffer := Some []\<rparr>
            | Some b \<Rightarrow> d\<lparr>c_responseBuffer := Some (take 0 b)\<rparr>) = d\<lparr>c_responseBuffer := Some []\<rparr>"
    for x :: "string option" and d :: DefaultContext
    by (cases x) simp_all
  have b2: "(case x of None \<Rightarrow> d\<lparr>c_jsonBuffer := Some []\<rparr>
            | Some b \<Rightarrow> d\<lparr>c_jsonBuffer := Some (take 0 b)\<rparr>) = d\<lparr>c_jsonBuffer := Some []\<rparr>"
    for x :: "string option" and d :: DefaultContext
    by (cases x) simp_all
  have b3: "(case lg of [] \<Rightarrow> d\<lparr>c_appLogger := None\<rparr> | l # x \<Rightarrow> d\<lparr>c_appLogger := Some l\<rparr>)
      = d\<lparr>c_appLogger := (case lg of [] \<Rightarrow> None | l # _ \<Rightarrow> Some l)\<rparr>"
    for d :: DefaultContext
    by (cases lg) simp_all
  show ?thesis
    unfolding resetCommon_def Let_def b1 b2 b3
    by (simp add: hasQueryCache_def isFastHTTP_def)
qed


lemma isFastHTTP_setFastHTTP [simp]: "isFastHTTP (setFastHTTP v c) = v"
proof -
  have "(x OR 8 :: 8 word) AND 8 = 8" for x by (simp add: bit_eq_iff bit_simps)
  moreover have "(x AND NOT 8 :: 8 word) AND 8 = 0" for x by (simp add: bit_eq_iff bit_simps)
  ultimately show ?thesis
    by (simp add: isFastHTTP_def setFastHTTP_def)
qed

lemma isFastHTTP_fields [simp]:
  "isFastHTTP (c\<lparr>c_w := a1\<rparr>) = isFastHTTP c"
  "isFastHTTP (c\<lparr>c_r := a2\<rparr>) = isFastHTTP c"
  "isFastHTTP (c\<lparr>c_fctx := a3\<rparr>) = isFastHTTP c"
  "isFastHTTP (c\<lparr>c_route := a4\<rparr>) = isFastHTTP c"
  by (simp_all add: isFastHTTP_def)

lemma setFastHTTP_fields [simp]:
  "c_w (setFastHTTP v c) = c_w c" "c_r (setFastHTTP v c) = c_r c"
  "c_fctx (setFastHTTP v c) = c_fctx c" "c_route (setFastHTTP v c) = c_route c"
  "c_params (setFastHTTP v c) = c_params c"
  by (simp_all add: setFastHTTP_def)

lemma Reset_fields [simp]:
  "c_w (Reset wr rq ps rt lg c) = Some wr"
  "c_r (Reset wr rq ps rt lg c) = Some rq"
  "c_fctx (Reset wr rq ps rt lg c) = None"
  "c_route (Reset wr rq ps rt lg c) = rt"
  "c_status (Reset wr rq ps rt lg c) = 0"
  "c_wroteBytes (Reset wr rq ps rt lg c) = 0"
  "c_flags (Reset wr rq ps rt lg c) = 2"
  by (simp_all add: Reset_def resetCommon_eq)

lemma ResetFastHTTP_fields [simp]:
  "c_w (ResetFastHTTP fc ps rt lg c) = None"
  "c_r (ResetFastHTTP fc ps rt lg c) = None"
  "c_fctx (ResetFastHTTP fc ps rt lg c) = Some fc"
  "c_route (ResetFastHTTP fc ps rt lg c) = rt"
  "c_status (ResetFastHTTP fc ps rt lg c) = 0"
  "c_wroteBytes (ResetFastHTTP fc ps rt lg c) = 0"
  "c_flags (ResetFastHTTP fc ps rt lg c) = 10"
  by (simp_all add: ResetFastHTTP_def resetCommon_eq)

lemma fold_copy_params:
  "n \<le> length ps \<Longrightarrow> n \<le> length arr \<Longrightarrow>
     fold (\<lambda>i arr. arr[i := ps ! i]) [0..<n] arr = take n ps @ drop n arr"
proof (induction n)
  case 0
  then show ?case by simp
next
  case (Suc n)
  then have ih: "fold (\<lambda>i arr. arr[i := ps ! i]) [0..<n] arr = take n ps @ drop n arr"
    by simp
  from Suc.prems have "(take n ps @ drop n arr)[n := ps ! n] = take (Suc n) ps @ drop (Suc n) arr"
    by (simp add: list_update_append take_Suc_conv_app_nth upd_conv_take_nth_drop
        drop_Suc tl_drop)
  with ih show ?case by simp
qed

lemma paramScan_prefix:
  assumes "c_params c = ps @ rest" and "unat (c_paramCount c) = length ps"
  shows "i \<le> length ps \<Longrightarrow> paramScan c name i = Inr (ByName (drop i ps) name)"
proof (induction "length ps - i" arbitrary: i)
  case 0
  with assms show ?case by (subst paramScan.simps) simp
next
  case (Suc k)
  then have lt: "i < length ps" by simp
  with Suc have ih: "paramScan c name (Suc i) = Inr (ByName (drop (Suc i) ps) name)" by simp
  from lt have dr: "drop i ps = ps ! i # drop (Suc i) ps" by (simp add: Cons_nth_drop_Suc)
  from lt assms have nth: "c_params c ! i = ps ! i" by (simp add: nth_append)
  from lt assms have len: "\<not> length (c_params c) \<le> i" by simp
  show ?case
    by (subst paramScan.simps) (simp add: assms(2) lt len nth ih dr)
qed

lemma Param_c_resetCommon:
  assumes "length (c_params c) = 32"
  shows "Param_c (resetCommon ps lg c) name = Inr (ByName ps name)"
proof -
  consider "length ps = 0" | "0 < length ps" "length ps \<le> 32" | "32 < length ps" by linarith
  then show ?thesis
  proof cases
    case 1
    then show ?thesis by (simp add: Param_c_def resetCommon_eq paramScan.simps)
  next
    case 2
    from 2 assms have arr: "c_params (resetCommon ps lg c) = ps @ drop (length ps) (c_params c)"
      by (simp add: resetCommon_eq fold_copy_params)
    from 2 have cnt: "unat (c_paramCount (resetCommon ps lg c)) = length ps"
      by (simp add: resetCommon_eq unat_of_nat)
    from 2 have sl: "c_paramSlice (resetCommon ps lg c) = None"
      by (simp add: resetCommon_eq)
    from paramScan_prefix [OF arr cnt, of 0 name] sl show ?thesis
      by (simp add: Param_c_def)
  next
    case 3
    then show ?thesis by (simp add: Param_c_def resetCommon_eq)
  qed
qed

text \<open>
  C9. A context taken from the pool and reset for a new request (\<open>Reset\<close> or
  \<open>ResetFastHTTP\<close>) shows nothing of the request it served before: whatever the
  context \<open>c\<close> held, the accessors return what the arguments of the reset determine.
  \<open>Param\<close> looks the name up in the new parameters, the staged status is 0, the header
  is not written, route, request, writer and fasthttp context are the new ones (and with
  them the headers), and \<open>Query\<close> answers from the new request. The parameter array has
  its 32 elements, as the array type says.
\<close>

theorem reset_isolates_requests:
  assumes "length (c_params c) = 32"
  shows "Param_c (Reset wr rq ps rt lg c) name = Inr (ByName ps name)
    \<and> StatusCode (Reset wr rq ps rt lg c) = 0
    \<and> WroteHeader (Reset wr rq ps rt lg c) = False
    \<and> Route (Reset wr rq ps rt lg c) = rt
    \<and> Request (Reset wr rq ps rt lg c) = Some rq
    \<and> ResponseWriter (Reset wr rq ps rt lg c) = Some wr
    \<and> FastHTTPCtx (Reset wr rq ps rt lg c) = None
    \<and> Method (Reset wr rq ps rt lg c) = Inr (reqMethod rq)
    \<and> Path (Reset wr rq ps rt lg c) = Inr (urlPath rq)
    \<and> map_sum id fst (Query parse k (Reset wr rq ps rt lg c))
        = Inr (if urlRawQuery rq = [] then [] else ValuesGet (Some (parse (urlRawQuery rq))) k)
    \<and> Param_c (ResetFastHTTP fc ps rt lg c) name = Inr (ByName ps name)
    \<and> StatusCode (ResetFastHTTP fc ps rt lg c) = 0
    \<and> WroteHeader (ResetFastHTTP fc ps rt lg c) = False
    \<and> Route (ResetFastHTTP fc ps rt lg c) = rt
    \<and> Request (ResetFastHTTP fc ps rt lg c) = None
    \<and> ResponseWriter (ResetFastHTTP fc ps rt lg c) = None
    \<and> FastHTTPCtx (ResetFastHTTP fc ps rt lg c) = Some fc
    \<and> Method (ResetFastHTTP fc ps rt lg c) = Inr (fMethod fc)
    \<and> Path (ResetFastHTTP fc ps rt lg c) = Inr (fPath fc)
    \<and> map_sum id fst (Query parse k (ResetFastHTTP fc ps rt lg c))
        = Inr (case fQueryArgs fc k of None \<Rightarrow> [] | Some v \<Rightarrow> v)"
proof -
  from assms have p1: "Param_c (Reset wr rq ps rt lg c) name = Inr (ByName ps name)"
    by (simp add: Reset_def Param_c_resetCommon setFastHTTP_def)
  from assms have p2: "Param_c (ResetFastHTTP fc ps rt lg c) name = Inr (ByName ps name)"
    by (simp add: ResetFastHTTP_def Param_c_resetCommon setFastHTTP_def)
  have q1: "map_sum id fst (Query parse k (Reset wr rq ps rt lg c))
        = Inr (if urlRawQuery rq = [] then [] else ValuesGet (Some (parse (urlRawQuery rq))) k)"
    by (simp add: Query_def isFastHTTP_def hasQueryCache_def setHasQueryCache_def)
  have q2: "map_sum id fst (Query parse k (ResetFastHTTP fc ps rt lg c))
        = Inr (case fQueryArgs fc k of None \<Rightarrow> [] | Some v \<Rightarrow> v)"
    by (simp add: Query_def isFastHTTP_def)
  show ?thesis
    by (simp add: p1 p2 q1 q2 StatusCode_def WroteHeader_def wroteHeader_def Route_def Request_def
        ResponseWriter_def FastHTTPCtx_def Method_def Path_def isFastHTTP_def)
qed

text \<open>
  The scenario: the context that served \<open>GET /users/42\<close> with status 404 is reset for
  \<open>GET /ping\<close>.
\<close>

lemma c_params_usedContext:
  "c_params usedContext = Param ''id'' ''42'' # drop 1 (replicate 32 (Param [] []))"
proof -
  have "(replicate 32 x)[0 := y] = y # drop 1 (replicate 32 x)" for x y :: Param
    by (simp add: numeral_eq_Suc)
  then show ?thesis
    by (simp add: usedContext_def String_def Status_def isFastHTTP_def wroteHeader_def
        setWroteHeader_def Let_def Reset_def resetCommon_eq setFastHTTP_def zeroContext_def)
qed

theorem reset_isolates_requests_witness:
  "length (c_params usedContext) = 32
   \<and> Param_c usedContext ''id'' = Inr ''42''
   \<and> StatusCode usedContext = 404
   \<and> WroteHeader usedContext
   \<and> Param_c (Reset newWriter (newRequest ''GET'' ''/ping'') [] ''/ping'' [0] usedContext) ''id''
       = Inr []
   \<and> StatusCode (Reset newWriter (newRequest ''GET'' ''/ping'') [] ''/ping'' [0] usedContext) = 0
   \<and> WroteHeader (Reset newWriter (newRequest ''GET'' ''/ping'') [] ''/ping'' [0] usedContext)
       = False
   \<and> ResponseWriter (Reset newWriter (newRequest ''GET'' ''/ping'') [] ''/ping'' [0] usedContext)
       = Some newWriter"
proof -
  have len: "length (c_params usedContext) = 32"
    by (simp add: c_params_usedContext)
  have old1: "Param_c usedContext ''id'' = Inr ''42''"
    by (simp add: Param_c_def paramScan.simps c_params_usedContext)
      (simp add: usedContext_def String_def Status_def isFastHTTP_def wroteHeader_def
        setWroteHeader_def Let_def Reset_def resetCommon_eq setFastHTTP_def zeroContext_def
        paramScan.simps)
  have old2: "StatusCode usedContext = 404" "WroteHeader usedContext"
    by (simp_all add: usedContext_def String_def Status_def isFastHTTP_def wroteHeader_def
        setWroteHeader_def Let_def StatusCode_def WroteHeader_def)
  note new = reset_isolates_requests [OF len, of newWriter "newRequest ''GET'' ''/ping''" "[]"
      "''/ping''" "[0]" "''id''"]
  from new have n1:
    "Param_c (Reset newWriter (newRequest ''GET'' ''/ping'') [] ''/ping'' [0] usedContext) ''id''
       = Inr []" by simp
  from new have n2:
    "StatusCode (Reset newWriter (newRequest ''GET'' ''/ping'') [] ''/ping'' [0] usedContext) = 0"
    by blast
  from new have n3:
    "WroteHeader (Reset newWriter (newRequest ''GET'' ''/ping'') [] ''/ping'' [0] usedContext)
       = False" by blast
  from new have n4:
    "ResponseWriter (Reset newWriter (newRequest ''GET'' ''/ping'') [] ''/ping'' [0] usedContext)
       = Some newWriter" by blast
  from len old1 old2 n1 n2 n3 n4 show ?thesis by (intro conjI)
qed

text \<open>
  Yet not every field is written by the reset: with no parameters in the new request,
  the first slot of the parameter array still holds the binding \<open>id = 42\<close> of the
  request before (the reset copies the new parameters and leaves the other slots).
\<close>

theorem reset_keeps_stale_param_slot:
  "c_params (Reset newWriter (newRequest ''GET'' ''/ping'') [] ''/ping'' [0] usedContext) ! 0
     = Param ''id'' ''42''"
  by (simp add: Reset_def resetCommon_eq setFastHTTP_def c_params_usedContext)

text \<open>
  C7. The raw accessors of the inactive transport are neutral: in fasthttp mode
  \<open>Request\<close> and \<open>ResponseWriter\<close> return \<open>nil\<close> and their setters do nothing. But
  \<open>Send\<close>, \<open>SetHeaders\<close> and \<open>SetContentType\<close> do not branch on the mode: on every
  context reset for a fasthttp request, whatever their arguments, they dereference the
  \<open>nil\<close> net/http writer and panic, while \<open>Header\<close> and \<open>String\<close>, which branch, succeed.
\<close>

theorem fasthttp_mode_writers_panic:
  "Request (ResetFastHTTP fc ps rt lg c) = None
   \<and> ResponseWriter (ResetFastHTTP fc ps rt lg c) = None
   \<and> SetRequest rq (ResetFastHTTP fc ps rt lg c) = ResetFastHTTP fc ps rt lg c
   \<and> SetResponseWriter wr (ResetFastHTTP fc ps rt lg c) = ResetFastHTTP fc ps rt lg c
   \<and> Send st ct b (ResetFastHTTP fc ps rt lg c) = Inl NilPointerDereference
   \<and> SetHeaders hs (ResetFastHTTP fc ps rt lg c) = Inl NilPointerDereference
   \<and> SetContentType ct (ResetFastHTTP fc ps rt lg c) = Inl NilPointerDereference
   \<and> isOK (Header canon k v (ResetFastHTTP fc ps rt lg c))
   \<and> isOK (String st body (ResetFastHTTP fc ps rt lg c))"
  by (simp add: Request_def ResponseWriter_def SetRequest_def SetResponseWriter_def Send_def
      SetHeaders_def SetContentType_def Header_def String_def isFastHTTP_def isOK_def)

text \<open>
  C6. In fasthttp mode a status or header change after the header is flushed is not a
  no-op. On a context reset for a fasthttp request, \<open>String 200 "a"\<close> sets the flag
  that \<open>WroteHeader\<close> reports; after it \<open>Header\<close> still adds a header to the response,
  a second \<open>String\<close> replaces status and body, and \<open>Status\<close> changes what \<open>StatusCode\<close>
  returns. \<open>WroteHeader\<close> stays true throughout.
\<close>

theorem fasthttp_changes_after_flush:
  "(case String 200 ''a'' fastContext of
      Inl p \<Rightarrow> False
    | Inr (err, c1) \<Rightarrow>
        WroteHeader c1
        \<and> bufferedStatus c1 = Some 200
        \<and> bufferedHeader c1 ''X-A'' = None
        \<and> (case Header id ''X-A'' ''1'' c1 of
              Inl p \<Rightarrow> False
            | Inr c2 \<Rightarrow> WroteHeader c2 \<and> bufferedHeader c2 ''X-A'' = Some [''1''])
        \<and> (case String 500 ''b'' c1 of
              Inl p \<Rightarrow> False
            | Inr (err, c3) \<Rightarrow>
                WroteHeader c3 \<and> bufferedStatus c3 = Some 500 \<and> bufferedBody c3 = Some ''b'')
        \<and> StatusCode c1 = 200
        \<and> StatusCode (Status 404 c1) = 404
        \<and> WroteHeader (Status 404 c1))"
  by (simp add: fastContext_def String_def Header_def Status_def StatusCode_def WroteHeader_def
      wroteHeader_def setWroteHeader_def isFastHTTP_def bufferedStatus_def bufferedHeader_def
      bufferedBody_def newRequestCtx_def)

section \<open>The matcher on segments\<close>

lemma segEnd_takeWhile:
  "i \<le> length s \<Longrightarrow> segEnd s i = i + length (takeWhile notSlash (drop i s))"
proof (induction s i rule: segEnd.induct)
  case (1 s i)
  show ?case
  proof (cases "i < length s \<and> s ! i \<noteq> CHR ''/''")
    case True
    then have dr: "drop i s = s ! i # drop (Suc i) s" by (simp add: Cons_nth_drop_Suc)
    from True 1 have "segEnd s (Suc i) = Suc i + length (takeWhile notSlash (drop (Suc i) s))"
      by simp
    with True dr show ?thesis by (subst segEnd.simps) simp
  next
    case False
    show ?thesis
    proof (cases "i < length s")
      case True
      with False have sl: "s ! i = CHR ''/''" by simp
      from True have "drop i s = s ! i # drop (Suc i) s" by (simp add: Cons_nth_drop_Suc)
      with sl True show ?thesis by (subst segEnd.simps) simp
    next
      case False
      with 1 show ?thesis by (subst segEnd.simps) simp
    qed
  qed
qed

lemma slice_segEnd:
  "i \<le> length s \<Longrightarrow> slice s i (segEnd s i) = takeWhile notSlash (drop i s)"
  by (simp add: slice_def segEnd_takeWhile takeWhile_eq_take [symmetric])

lemma drop_segEnd:
  "i \<le> length s \<Longrightarrow> drop (segEnd s i) s = dropWhile notSlash (drop i s)"
proof -
  assume le: "i \<le> length s"
  have "dropWhile notSlash (drop i s)
      = drop (length (takeWhile notSlash (drop i s))) (drop i s)"
    by (rule dropWhile_eq_drop)
  also have "\<dots> = drop (segEnd s i) s"
    using le by (simp add: segEnd_takeWhile add.commute)
  finally show ?thesis by simp
qed

lemma drop_skipSlash:
  "i \<le> length s \<Longrightarrow> drop (skipSlash s i) s = dropSlash (drop i s)"
proof (cases "i < length s")
  case True
  then have "drop i s = s ! i # drop (Suc i) s" by (simp add: Cons_nth_drop_Suc)
  with True show ?thesis by (simp add: skipSlash_def dropSlash_def)
next
  case False
  assume "i \<le> length s"
  with False show ?thesis by (simp add: skipSlash_def dropSlash_def)
qed

lemma skipSlash_le_length: "i \<le> length s \<Longrightarrow> skipSlash s i \<le> length s"
  by (simp add: skipSlash_def)

lemma matchLoop_matchSuffix:
  "i \<le> length pattern \<Longrightarrow> j \<le> length path \<Longrightarrow>
     matchLoop pattern path i j ps = matchSuffix (drop i pattern) (drop j path) ps"
proof (induction pattern path i j ps rule: matchLoop.induct)
  case (1 pattern path i j ps)
  let ?pe = "segEnd pattern i" and ?qe = "segEnd path j"
  from 1 have pe: "?pe \<le> length pattern" and qe: "?qe \<le> length path"
    by (simp_all add: segEnd_le_length)
  then have pn: "skipSlash pattern ?pe \<le> length pattern"
    and qn: "skipSlash path ?qe \<le> length path"
    by (simp_all add: skipSlash_le_length)
  have pseg: "slice pattern i ?pe = takeWhile notSlash (drop i pattern)"
    and qseg: "slice path j ?qe = takeWhile notSlash (drop j path)"
    using 1 by (simp_all add: slice_segEnd)
  have pnext: "drop (skipSlash pattern ?pe) pattern = dropSlash (dropWhile notSlash (drop i pattern))"
    using 1 pe by (simp add: drop_skipSlash drop_segEnd)
  have qnext: "drop (skipSlash path ?qe) path = dropSlash (dropWhile notSlash (drop j path))"
    using 1 qe by (simp add: drop_skipSlash drop_segEnd)
  show ?case
  proof (cases "i < length pattern \<and> j < length path")
    case False
    with 1 show ?thesis
      by (subst matchLoop.simps, subst matchSuffix.simps) auto
  next
    case inside: True
    let ?ps = "takeWhile notSlash (drop i pattern)"
    consider (wild) "?ps \<noteq> []" "hd ?ps = CHR ''*''"
      | (cap) "?ps \<noteq> []" "hd ?ps = CHR '':''"
      | (lit) "?ps = [] \<or> (hd ?ps \<noteq> CHR ''*'' \<and> hd ?ps \<noteq> CHR '':'')"
      by auto
    then show ?thesis
    proof cases
      case wild
      with inside pseg show ?thesis
        by (subst matchLoop.simps, subst matchSuffix.simps)
          (simp add: hd_conv_nth drop_Suc tl_drop)
    next
      case cap
      with inside pseg have c1: "0 < length (slice pattern i ?pe) \<and> slice pattern i ?pe ! 0 = CHR '':''"
        and c0: "\<not> (0 < length (slice pattern i ?pe) \<and> slice pattern i ?pe ! 0 = CHR ''*'')"
        by (simp_all add: hd_conv_nth)
      from "1.IH"(1) [OF inside c0 c1 pn qn]
      have ih: "matchLoop pattern path (skipSlash pattern ?pe) (skipSlash path ?qe)
          (ps @ [Param (tl ?ps) (takeWhile notSlash (drop j path))])
        = matchSuffix (dropSlash (dropWhile notSlash (drop i pattern)))
            (dropSlash (dropWhile notSlash (drop j path)))
            (ps @ [Param (tl ?ps) (takeWhile notSlash (drop j path))])"
        by (simp add: pnext qnext pseg qseg drop_Suc tl_drop)
      from inside cap c0 c1 show ?thesis
        by (subst matchLoop.simps, subst matchSuffix.simps)
          (simp add: ih pseg qseg drop_Suc tl_drop)
    next
      case lit
      with inside pseg have c1: "\<not> (0 < length (slice pattern i ?pe) \<and> slice pattern i ?pe ! 0 = CHR '':'')"
        and c0: "\<not> (0 < length (slice pattern i ?pe) \<and> slice pattern i ?pe ! 0 = CHR ''*'')"
        by (auto simp: hd_conv_nth)
      show ?thesis
      proof (cases "slice pattern i ?pe = slice path j ?qe")
        case True
        then have c2: "\<not> slice pattern i ?pe \<noteq> slice path j ?qe" by simp
        from "1.IH"(2) [OF inside c0 c1 c2 pn qn]
        have ih: "matchLoop pattern path (skipSlash pattern ?pe) (skipSlash path ?qe) ps
          = matchSuffix (dropSlash (dropWhile notSlash (drop i pattern)))
              (dropSlash (dropWhile notSlash (drop j path))) ps"
          by (simp add: pnext qnext)
        from inside lit c0 c1 True show ?thesis
          by (subst matchLoop.simps, subst matchSuffix.simps)
            (auto simp: ih pseg qseg)
      next
        case False
        with inside lit c0 c1 show ?thesis
          by (subst matchLoop.simps, subst matchSuffix.simps)
            (auto simp: pseg qseg)
      qed
    qed
  qed
qed


lemma takeWhile_seg [simp]:
  "CHR ''/'' \<notin> set s \<Longrightarrow> takeWhile notSlash (s @ CHR ''/'' # r) = s"
  by (induction s) auto

lemma dropWhile_seg [simp]:
  "CHR ''/'' \<notin> set s \<Longrightarrow> dropWhile notSlash (s @ CHR ''/'' # r) = CHR ''/'' # r"
  by (induction s) auto

lemma takeWhile_seg_all [simp]:
  "CHR ''/'' \<notin> set s \<Longrightarrow> takeWhile notSlash s = s"
  by (induction s) auto

lemma dropWhile_seg_all [simp]:
  "CHR ''/'' \<notin> set s \<Longrightarrow> dropWhile notSlash s = []"
  by (induction s) auto



lemma matchSuffix_Nil [simp]: "matchSuffix [] [] ps = Some ps"
  by (subst matchSuffix.simps) simp




lemma matchRoute_matchSuffix:
  "matchRoute (CHR ''/'' # p) (CHR ''/'' # q) =
     (if p = q then None
      else if \<not> ContainsAny (CHR ''/'' # p) '':*'' then None
      else matchSuffix p q [])"
proof -
  have "matchLoop (CHR ''/'' # p) (CHR ''/'' # q) (Suc 0) (Suc 0) [] = matchSuffix p q []"
    using matchLoop_matchSuffix [of "Suc 0" "CHR ''/'' # p" "Suc 0" "CHR ''/'' # q" "[]"]
    by simp
  then show ?thesis by (simp add: matchRoute_def skipSlash_def)
qed





section \<open>Properties of resolution\<close>



lemma visits_map_of: "visits st order \<Longrightarrow> k \<in> set order \<longleftrightarrow> map_of st k \<noteq> None"
  by (auto simp: visits_def map_of_eq_None_iff)


lemma findRoute_uncached:
  assumes "map_of (routeCache a) (method @ '':'' @ path) = None"
  shows "findRoute order method path a =
     (scanRoutes (static (router a)) method path order,
      if length (routeCache a) < 1000
      then a\<lparr>routeCache := AList.update (method @ '':'' @ path)
              (scanRoutes (static (router a)) method path order) (routeCache a)\<rparr>
      else a)"
  using assms
  by (cases "scanRoutes (static (router a)) method path order") (simp_all add: findRoute_def)



lemma length_missCache: "length (missCache n) = n"
  by (simp add: missCache_def)


text \<open>
  The full cache of \<open>overlapApp\<close> is the one that a thousand resolutions leave behind:
  resolving \<open>GET /\<close>, \<open>GET /x\<close>, ..., one after the other on \<open>twoRoutes\<close>, records a
  miss each time.
\<close>

lemma update_new_key:
  "k \<notin> fst ` set al \<Longrightarrow> AList.update k v al = al @ [(k, v)]"
  by (induction al) auto

lemma missCache_Suc:
  "missCache (Suc n) = missCache n @ [(''GET:/'' @ replicate n CHR ''x'', None)]"
  by (simp add: missCache_def)

lemma missCache_fresh: "''GET:/'' @ replicate n CHR ''x'' \<notin> fst ` set (missCache n)"
proof
  assume "''GET:/'' @ replicate n CHR ''x'' \<in> fst ` set (missCache n)"
  then obtain i where "i < n" "replicate n CHR ''x'' = replicate i CHR ''x''"
    by (auto simp: missCache_def)
  then have "length (replicate n CHR ''x'') = length (replicate i CHR ''x'')" by simp
  with \<open>i < n\<close> show False by simp
qed

lemma no_match_xs:
  "matchRoute ''/a/:x'' (CHR ''/'' # replicate n CHR ''x'') = None"
  "matchRoute ''/:y/b'' (CHR ''/'' # replicate n CHR ''x'') = None"
proof -
  have ns: "CHR ''/'' \<notin> set (replicate n CHR ''x'')" by simp
  have t: "takeWhile notSlash (replicate n CHR ''x'') = replicate n CHR ''x''"
    and d: "dropWhile notSlash (replicate n CHR ''x'') = []"
    using ns by simp_all
  have a: "''a'' \<noteq> replicate n CHR ''x''" by (cases n) simp_all
  show "matchRoute ''/a/:x'' (CHR ''/'' # replicate n CHR ''x'') = None"
    using a by (simp add: matchRoute_matchSuffix matchSuffix.simps [of "''a/:x''"] t)
  have "matchSuffix '':y/b'' (replicate n CHR ''x'') [] = None"
    by (cases n)
      (simp_all add: matchSuffix.simps [of "'':y/b''"] matchSuffix.simps [of "''b''"]
        dropSlash_def d del: replicate.simps)
  then show "matchRoute ''/:y/b'' (CHR ''/'' # replicate n CHR ''x'') = None"
    by (simp add: matchRoute_matchSuffix)
qed

lemma missCache_reachable:
  "n \<le> 1000 \<Longrightarrow>
     fold (\<lambda>i a. snd (findRoute [''GET:/a/:x'', ''GET:/:y/b''] ''GET''
                        (CHR ''/'' # replicate i CHR ''x'') a)) [0..<n] twoRoutes
       = twoRoutes\<lparr>routeCache := missCache n\<rparr>"
proof (induction n)
  case 0
  then show ?case
    by (simp add: missCache_def twoRoutes_def handle_def addDynamicRoute_def New_def)
next
  case (Suc n)
  let ?a = "twoRoutes\<lparr>routeCache := missCache n\<rparr>"
  let ?p = "CHR ''/'' # replicate n CHR ''x''"
  have st: "static (router twoRoutes)
     = [(''GET:/:y/b'', newFastChain [] (respond ''second'')),
        (''GET:/a/:x'', newFastChain [] (respond ''first''))]"
    by (simp add: twoRoutes_def handle_def addDynamicRoute_def New_def)
  have scan: "scanRoutes (static (router twoRoutes)) ''GET'' ?p [''GET:/a/:x'', ''GET:/:y/b''] = None"
    by (simp add: st HasPrefix_def TrimPrefix_def no_match_xs)
  have fresh: "map_of (routeCache ?a) (''GET'' @ '':'' @ ?p) = None"
    using missCache_fresh [of n] by (simp add: map_of_eq_None_iff)
  from Suc.prems have len: "length (routeCache ?a) < 1000" by (simp add: length_missCache)
  have "snd (findRoute [''GET:/a/:x'', ''GET:/:y/b''] ''GET'' ?p ?a)
      = twoRoutes\<lparr>routeCache := missCache (Suc n)\<rparr>"
    using missCache_fresh [of n] len
    by (simp add: findRoute_uncached [OF fresh] scan update_new_key missCache_Suc
        del: scanRoutes.simps)
  with Suc show ?case by simp
qed

lemma overlapApp_reachable:
  "fold (\<lambda>i a. snd (findRoute [''GET:/a/:x'', ''GET:/:y/b''] ''GET''
                     (CHR ''/'' # replicate i CHR ''x'') a)) [0..<1000] twoRoutes
     = overlapApp"
  using missCache_reachable [of 1000] by (simp add: overlapApp_def)


















section \<open>Properties of dispatch on a miss\<close>







lemma runHandler_routeCache [simp]: "runHandler (a\<lparr>routeCache := cache\<rparr>) h c = runHandler a h c"
  by (simp add: runHandler_def split: sum.splits prod.splits option.splits)

lemma pathExists_routeCache [simp]:
  "pathExistsWithDifferentMethod method path (a\<lparr>routeCache := cache\<rparr>)
     = pathExistsWithDifferentMethod method path a"
  by (simp add: pathExistsWithDifferentMethod_def)















end
